theory Spec2Isabelle
  imports Main
begin

section \<open>Data model of the global context (src/contexts/global.tsx)\<close>

text \<open>
  The provider keeps two pieces of state, \<open>menuRawList\<close> (the flat, ordered catalog) and
  \<open>recyleRawData\<close> (the recycle bin), both \<open>undefined\<close> until the first load.  The five
  helpers of \<open>MenuHelpers\<close> are modelled as functions on a record of the two.  An updater
  passed to a state setter from inside another updater is run after it, in the order of
  the calls; every updater is taken to run once.

  \<open>null\<close> and \<open>undefined\<close> are both \<open>None\<close>: a \<open>parentId\<close> is only ever compared with a
  string or copied.
\<close>

text \<open>
  Modelled from the spec: the enum \<open>CatalogType\<close> of \<open>@/enums\<close> is not among the
  sources.  The code names its members \<open>Http\<close>, \<open>Schema\<close>, \<open>Request\<close> and \<open>Markdown\<close>;
  every other member is \<open>OtherCatalog\<close>.
\<close>

datatype CatalogType = Http | Schema | Request | Markdown | OtherCatalog

text \<open>
  \<open>RecycleCatalogType\<close>, the keys of the recycle bin: the three members that the test of
  lines 93 to 97 lets through.
\<close>

datatype RecycleCatalogType = RHttp | RSchema | RRequest

fun recycleKey :: "CatalogType \<Rightarrow> RecycleCatalogType option" where
  "recycleKey Http = Some RHttp"
| "recycleKey Schema = Some RSchema"
| "recycleKey Request = Some RRequest"
| "recycleKey Markdown = None"
| "recycleKey OtherCatalog = None"

text \<open>The values of an entry's payload object; the code never looks inside them.\<close>

datatype jsval = JStr string | JNum int | JBool bool | JNull

type_synonym payload = "string \<rightharpoonup> jsval"

text \<open>\<open>ApiMenuData\<close>; \<open>'k\<close> is the enum of entry kinds (\<open>MenuItemType\<close>).\<close>

record 'k ApiMenuData =
  id_m :: string
  parentId :: "string option"
  name :: string
  type_m :: 'k
  data :: "payload option"

text \<open>
  The argument of \<open>updateMenuItem\<close> with its \<open>id\<close> taken out (\<open>rest\<close>): each field is
  present with a value or absent (a key that is present with the value \<open>undefined\<close> is
  not modelled).
\<close>

record 'k MenuPatch =
  p_parentId :: "string option option"
  p_name :: "string option"
  p_type :: "'k option"
  p_data :: "payload option"

text \<open>\<open>RecycleDataItem\<close>; \<open>'c\<close> is the type of the constant \<open>creator\<close> of \<open>@/data/remote\<close>.\<close>

record ('k, 'c) RecycleDataItem =
  id_r :: string
  expiredAt :: string
  creator :: 'c
  deletedItem :: "'k ApiMenuData"

type_synonym ('k, 'c) RecycleData =
  "RecycleCatalogType \<Rightarrow> ('k, 'c) RecycleDataItem list option"

record ('k, 'c) State =
  menuRawList :: "'k ApiMenuData list option"
  recyleRawData :: "('k, 'c) RecycleData option"

datatype DropPosition = Top | Inside | Bottom
  \<comment> \<open>\<open>-1\<close>, \<open>0\<close> and \<open>1\<close> of the source\<close>

section \<open>Library functions\<close>

text \<open>\<open>Array.prototype.findIndex\<close>: the first index that satisfies the test, or \<open>-1\<close>.\<close>

fun findIndex :: "('a \<Rightarrow> bool) \<Rightarrow> 'a list \<Rightarrow> int" where
  "findIndex P [] = - 1"
| "findIndex P (x # xs) =
     (if P x then 0
      else (let r = findIndex P xs in if r = - 1 then - 1 else r + 1))"

text \<open>
  Modelled from the spec: \<open>moveArrayItem\<close> of \<open>@/utils\<close> is not among the sources.  The
  spec has it remove the item and reinsert it at the target index, the index being
  one of the list before the removal: it is lowered by one when the item came from
  before it.  The code calls it with \<open>fromIndex\<close> in range only.
\<close>

definition moveArrayItem :: "'a list \<Rightarrow> nat \<Rightarrow> nat \<Rightarrow> 'a list" where
  "moveArrayItem arr fromIndex toIndex =
     (if fromIndex < length arr then
        (let item = arr ! fromIndex;
             removed = take fromIndex arr @ drop (Suc fromIndex) arr;
             target = (if fromIndex < toIndex then toIndex - 1 else toIndex)
         in take target removed @ [item] @ drop target removed)
      else arr)"

text \<open>The label \<open>'30\<close> followed by the character U+5929 (three bytes in UTF-8).\<close>

definition expiry_label :: string where
  "expiry_label = ''30'' @ [CHR 0xE5, CHR 0xA4, CHR 0xA9]"

section \<open>The helpers\<close>

subsection \<open>addMenuItem (lines 74 to 76)\<close>

definition addMenuItem :: "'k ApiMenuData \<Rightarrow> ('k, 'c) State \<Rightarrow> ('k, 'c) State" where
  "addMenuItem menuData s =
     s\<lparr>menuRawList :=
         Some ((case menuRawList s of None \<Rightarrow> [] | Some list \<Rightarrow> list) @ [menuData])\<rparr>"

subsection \<open>removeMenuItem (lines 78 to 117)\<close>

text \<open>
  The updater of lines 84 to 111, for one removed \<open>item\<close>.  \<open>getCatalogType\<close> of
  \<open>@/helpers\<close> and \<open>creator\<close> are parameters; \<open>nid\<close> is what \<open>nanoid(6)\<close> returns if it is
  called.  The result says whether it was called.  The test of line 100 compares with
  \<open>id\<close>, the argument of \<open>removeMenuItem\<close>; an \<open>undefined\<close> list makes \<open>exists\<close> true.
\<close>

definition recycleItem ::
  "('k \<Rightarrow> CatalogType) \<Rightarrow> 'c \<Rightarrow> string \<Rightarrow> string \<Rightarrow> 'k ApiMenuData \<Rightarrow>
   ('k, 'c) RecycleData option \<Rightarrow> bool \<times> ('k, 'c) RecycleData option" where
  "recycleItem getCatalogType cr nid i item d =
     (case d of
        None \<Rightarrow> (False, None)
      | Some draft \<Rightarrow>
          (let catalogType0 = getCatalogType (type_m item);
               catalogType = (if catalogType0 = Markdown then Http else catalogType0)
           in case recycleKey catalogType of
                None \<Rightarrow> (False, Some draft)
              | Some c \<Rightarrow>
                  (let list = draft c;
                       exists = (case list of
                                   None \<Rightarrow> True
                                 | Some l \<Rightarrow>
                                     findIndex (\<lambda>it. id_m (deletedItem it) = i) l \<noteq> - 1)
                   in if \<not> exists then
                        (True,
                         Some (draft(c := Some
                           (\<lparr>id_r = nid, expiredAt = expiry_label, creator = cr,
                             deletedItem = item\<rparr> # the list))))
                      else (False, Some draft))))"

text \<open>
  The \<open>filter\<close> of lines 80 to 115 over the catalog: it returns the entries kept, and
  the recycle bin after the updaters of the removed ones.  \<open>nanoid\<close> gives the
  identifiers drawn during the call, \<open>n\<close> counts the draws made.
\<close>

fun removeMenuItem_filter ::
  "('k \<Rightarrow> CatalogType) \<Rightarrow> 'c \<Rightarrow> (nat \<Rightarrow> string) \<Rightarrow> string \<Rightarrow> 'k ApiMenuData list \<Rightarrow>
   nat \<Rightarrow> ('k, 'c) RecycleData option \<Rightarrow>
   'k ApiMenuData list \<times> nat \<times> ('k, 'c) RecycleData option" where
  "removeMenuItem_filter getCatalogType cr nanoid i [] n d = ([], n, d)"
| "removeMenuItem_filter getCatalogType cr nanoid i (item # rest) n d =
     (let shouldRemove = (id_m item = i \<or> parentId item = Some i) in
      if shouldRemove then
        (case recycleItem getCatalogType cr (nanoid n) i item d of
           (drawn, d') \<Rightarrow>
             removeMenuItem_filter getCatalogType cr nanoid i rest
               (if drawn then Suc n else n) d')
      else
        (case removeMenuItem_filter getCatalogType cr nanoid i rest n d of
           (kept, n', d') \<Rightarrow> (item # kept, n', d')))"

definition removeMenuItem ::
  "('k \<Rightarrow> CatalogType) \<Rightarrow> 'c \<Rightarrow> (nat \<Rightarrow> string) \<Rightarrow> string \<Rightarrow>
   ('k, 'c) State \<Rightarrow> ('k, 'c) State" where
  "removeMenuItem getCatalogType cr nanoid i s =
     (case menuRawList s of
        None \<Rightarrow> s
      | Some rawList \<Rightarrow>
          (case removeMenuItem_filter getCatalogType cr nanoid i rawList 0 (recyleRawData s) of
             (kept, n, d) \<Rightarrow> \<lparr>menuRawList = Some kept, recyleRawData = d\<rparr>))"

subsection \<open>updateMenuItem (lines 119 to 133)\<close>

text \<open>
  The object of lines 123 to 127.  A spread of an absent payload adds nothing;
  \<open>rest.name || item.name\<close> takes the entry's name when the new one is absent or empty.
\<close>

definition spread :: "payload option \<Rightarrow> payload" where
  "spread p = (case p of None \<Rightarrow> Map.empty | Some m \<Rightarrow> m)"

definition mergeMenuItem :: "'k ApiMenuData \<Rightarrow> 'k MenuPatch \<Rightarrow> 'k ApiMenuData" where
  "mergeMenuItem item rest =
     \<lparr>id_m = id_m item,
      parentId = (case p_parentId rest of None \<Rightarrow> parentId item | Some p \<Rightarrow> p),
      name = (case p_name rest of None \<Rightarrow> name item | Some n \<Rightarrow> n),
      type_m = (case p_type rest of None \<Rightarrow> type_m item | Some t \<Rightarrow> t),
      data = Some ((spread (data item) ++ spread (p_data rest))
               (''name'' \<mapsto> JStr (case p_name rest of
                                     None \<Rightarrow> name item
                                   | Some n \<Rightarrow> if n = [] then name item else n)))\<rparr>"

definition updateMenuItem_list ::
  "string \<Rightarrow> 'k MenuPatch \<Rightarrow> 'k ApiMenuData list \<Rightarrow> 'k ApiMenuData list" where
  "updateMenuItem_list i rest list =
     map (\<lambda>item. if id_m item = i then mergeMenuItem item rest else item) list"

definition updateMenuItem ::
  "string \<Rightarrow> 'k MenuPatch \<Rightarrow> ('k, 'c) State \<Rightarrow> ('k, 'c) State" where
  "updateMenuItem i rest s =
     s\<lparr>menuRawList := map_option (updateMenuItem_list i rest) (menuRawList s)\<rparr>"

subsection \<open>restoreMenuItem (lines 135 to 163)\<close>

text \<open>
  The updater of lines 147 to 155 for one snapshot: an \<open>undefined\<close> catalog makes
  \<open>exists\<close> true.
\<close>

definition restoreItem ::
  "'k ApiMenuData \<Rightarrow> 'k ApiMenuData list option \<Rightarrow> 'k ApiMenuData list option" where
  "restoreItem apiMenuDataItem rawList =
     (let exists = (case rawList of
                      None \<Rightarrow> True
                    | Some l \<Rightarrow> findIndex (\<lambda>it. id_m it = id_m apiMenuDataItem) l \<noteq> - 1)
      in if exists then rawList else Some (the rawList @ [apiMenuDataItem]))"

text \<open>
  The \<open>filter\<close> of lines 141 to 159 over one category's list: the records kept, and
  the catalog after the updaters of the records taken out.
\<close>

fun restoreMenuItem_filter ::
  "string \<Rightarrow> ('k, 'c) RecycleDataItem list \<Rightarrow> 'k ApiMenuData list option \<Rightarrow>
   ('k, 'c) RecycleDataItem list \<times> 'k ApiMenuData list option" where
  "restoreMenuItem_filter restoreId [] rawList = ([], rawList)"
| "restoreMenuItem_filter restoreId (li # rest) rawList =
     (let shouldRestore = (id_r li = restoreId) in
      if shouldRestore then
        restoreMenuItem_filter restoreId rest (restoreItem (deletedItem li) rawList)
      else
        (case restoreMenuItem_filter restoreId rest rawList of
           (kept, rawList') \<Rightarrow> (li # kept, rawList')))"

definition restoreMenuItem ::
  "string \<Rightarrow> RecycleCatalogType \<Rightarrow> ('k, 'c) State \<Rightarrow> ('k, 'c) State" where
  "restoreMenuItem restoreId catalogType s =
     (case recyleRawData s of
        None \<Rightarrow> s
      | Some draft \<Rightarrow>
          (case draft catalogType of
             None \<Rightarrow> s
           | Some list \<Rightarrow>
               (case restoreMenuItem_filter restoreId list (menuRawList s) of
                  (kept, rawList') \<Rightarrow>
                    \<lparr>menuRawList = rawList',
                     recyleRawData = Some (draft(catalogType := Some kept))\<rparr>)))"

subsection \<open>moveMenuItem (lines 165 to 210)\<close>

record 'k MoveAcc =
  dragMenu :: "'k ApiMenuData option"
  dropMenu :: "'k ApiMenuData option"
  dragMenuIdx :: "nat option"
  dropMenuIdx :: "nat option"

text \<open>The \<open>reduce\<close> of lines 167 to 185, from index \<open>idx\<close> on.\<close>

fun moveMenuItem_reduce ::
  "string \<Rightarrow> string \<Rightarrow> 'k ApiMenuData list \<Rightarrow> nat \<Rightarrow> 'k MoveAcc \<Rightarrow> 'k MoveAcc" where
  "moveMenuItem_reduce dragKey dropKey [] idx acc = acc"
| "moveMenuItem_reduce dragKey dropKey (item # rest) idx acc =
     moveMenuItem_reduce dragKey dropKey rest (Suc idx)
       (if id_m item = dragKey then acc\<lparr>dragMenu := Some item, dragMenuIdx := Some idx\<rparr>
        else if id_m item = dropKey then acc\<lparr>dropMenu := Some item, dropMenuIdx := Some idx\<rparr>
        else acc)"

definition moveMenuItem_list ::
  "('k \<Rightarrow> bool) \<Rightarrow> string \<Rightarrow> string \<Rightarrow> DropPosition \<Rightarrow>
   'k ApiMenuData list \<Rightarrow> 'k ApiMenuData list" where
  "moveMenuItem_list isMenuFolder dragKey dropKey dropPosition list =
     (let acc = moveMenuItem_reduce dragKey dropKey list 0
                  \<lparr>dragMenu = None, dropMenu = None, dragMenuIdx = None, dropMenuIdx = None\<rparr>
      in case (dragMenu acc, dropMenu acc, dragMenuIdx acc, dropMenuIdx acc) of
           (Some dragM, Some dropM, Some dragIdx, Some dropIdx) \<Rightarrow>
             if isMenuFolder (type_m dropM) \<and> dropPosition = Inside then
               moveArrayItem (list[dragIdx := (list ! dragIdx)\<lparr>parentId := Some (id_m dropM)\<rparr>])
                 dragIdx (dropIdx + 1)
             else if dropPosition = Bottom then
               (if parentId dragM \<noteq> parentId dropM then
                  moveArrayItem (list[dragIdx := (list ! dragIdx)\<lparr>parentId := parentId dropM\<rparr>])
                    dragIdx (dropIdx + 1)
                else moveArrayItem list dragIdx (dropIdx + 1))
             else list
         | _ \<Rightarrow> list)"

definition moveMenuItem ::
  "('k \<Rightarrow> bool) \<Rightarrow> string \<Rightarrow> string \<Rightarrow> DropPosition \<Rightarrow>
   ('k, 'c) State \<Rightarrow> ('k, 'c) State" where
  "moveMenuItem isMenuFolder dragKey dropKey dropPosition s =
     s\<lparr>menuRawList :=
         Some (moveMenuItem_list isMenuFolder dragKey dropKey dropPosition
                 (case menuRawList s of None \<Rightarrow> [] | Some list \<Rightarrow> list))\<rparr>"

section \<open>The entry kinds of the spec\<close>

text \<open>
  Modelled from the spec: the enum of entry kinds (\<open>MenuItemType\<close> of \<open>@/enums\<close>) and
  the helpers \<open>getCatalogType\<close> and \<open>isMenuFolder\<close> of \<open>@/helpers\<close> are not among the
  sources.  The spec has leaf kinds (an HTTP entry, a schema, a request, a Markdown
  document) and folder kinds; a folder kind has no recycle category, a Markdown
  document is classified as \<open>Markdown\<close>, which line 89 remaps.
\<close>

datatype EntryKind = Folder | HttpEntry | SchemaEntry | RequestEntry | MarkdownDoc

fun getCatalogType :: "EntryKind \<Rightarrow> CatalogType" where
  "getCatalogType Folder = OtherCatalog"
| "getCatalogType HttpEntry = Http"
| "getCatalogType SchemaEntry = Schema"
| "getCatalogType RequestEntry = Request"
| "getCatalogType MarkdownDoc = Markdown"

fun isMenuFolder :: "EntryKind \<Rightarrow> bool" where
  "isMenuFolder Folder = True"
| "isMenuFolder HttpEntry = False"
| "isMenuFolder SchemaEntry = False"
| "isMenuFolder RequestEntry = False"
| "isMenuFolder MarkdownDoc = False"

section \<open>Example entries and states\<close>

text \<open>A bare entry \<open>{id, parentId, type}\<close>, and the recycle bin with three empty lists.\<close>

definition entry :: "string \<Rightarrow> string option \<Rightarrow> EntryKind \<Rightarrow> EntryKind ApiMenuData" where
  "entry i p k = \<lparr>id_m = i, parentId = p, name = [], type_m = k, data = None\<rparr>"

definition emptyRecycle :: "(EntryKind, string) RecycleData" where
  "emptyRecycle = (\<lambda>_. Some [])"

text \<open>The catalog of the three siblings \<open>a\<close>, \<open>b\<close>, \<open>c\<close>.\<close>

definition siblings :: "EntryKind ApiMenuData list" where
  "siblings = [entry ''a'' None HttpEntry, entry ''b'' None HttpEntry, entry ''c'' None HttpEntry]"

text \<open>A folder, a folder inside it, and an entry inside the inner folder.\<close>

definition nested :: "EntryKind ApiMenuData list" where
  "nested = [entry ''1'' None Folder, entry ''2'' (Some ''1'') Folder,
             entry ''3'' (Some ''2'') HttpEntry]"

text \<open>A patch that renames an entry and sets one payload key.\<close>

definition renamePatch :: "EntryKind MenuPatch" where
  "renamePatch = \<lparr>p_parentId = None, p_name = Some ''B'', p_type = None,
                  p_data = Some [''path'' \<mapsto> JStr ''/b'']\<rparr>"

text \<open>
  Two entries with the id \<open>2\<close> that differ in their name, a record holding the older one,
  and a state where the newer one is live while the record is in the bin.
\<close>

definition oldEntry :: "EntryKind ApiMenuData" where
  "oldEntry = \<lparr>id_m = ''2'', parentId = None, name = ''old'', type_m = HttpEntry, data = None\<rparr>"

definition newEntry :: "EntryKind ApiMenuData" where
  "newEntry = \<lparr>id_m = ''2'', parentId = None, name = ''new'', type_m = HttpEntry, data = None\<rparr>"

definition staleRecord :: "(EntryKind, string) RecycleDataItem" where
  "staleRecord = \<lparr>id_r = ''r0'', expiredAt = expiry_label, creator = ''me'',
                   deletedItem = oldEntry\<rparr>"

definition staleState :: "(EntryKind, string) State" where
  "staleState = \<lparr>menuRawList = Some [newEntry],
                  recyleRawData = Some (emptyRecycle(RHttp := Some [staleRecord]))\<rparr>"

text \<open>A folder with one HTTP entry in it, and the state that holds them with an empty bin.\<close>

definition folderWithChild :: "EntryKind ApiMenuData list" where
  "folderWithChild = [entry ''1'' None Folder, entry ''2'' (Some ''1'') HttpEntry]"

definition folderState :: "(EntryKind, string) State" where
  "folderState = \<lparr>menuRawList = Some folderWithChild, recyleRawData = Some emptyRecycle\<rparr>"

text \<open>
  An entry \<open>a\<close> that has a payload with two keys, next to a bare entry \<open>b\<close>, and a patch
  that gives no name and sets one payload key.
\<close>

definition payloadEntries :: "EntryKind ApiMenuData list" where
  "payloadEntries =
     [\<lparr>id_m = ''a'', parentId = None, name = ''A'', type_m = HttpEntry,
       data = Some [''path'' \<mapsto> JStr ''/a'', ''method'' \<mapsto> JStr ''GET'']\<rparr>,
      entry ''b'' None HttpEntry]"

definition pathPatch :: "EntryKind MenuPatch" where
  "pathPatch = \<lparr>p_parentId = None, p_name = None, p_type = None,
                p_data = Some [''path'' \<mapsto> JStr ''/x'']\<rparr>"

section \<open>A predicate on the recycle bin\<close>

text \<open>
  The bin is loaded, the list of the category \<open>c\<close> is there, and none of its records
  holds an entry with the id \<open>i\<close>.
\<close>

definition fresh_in :: "RecycleCatalogType \<Rightarrow> string \<Rightarrow> ('k, 'c) RecycleData option \<Rightarrow> bool" where
  "fresh_in c i d =
     (case d of
        None \<Rightarrow> False
      | Some draft \<Rightarrow>
          (case draft c of
             None \<Rightarrow> False
           | Some l \<Rightarrow> list_all (\<lambda>it. id_m (deletedItem it) \<noteq> i) l))"

section \<open>moveMenuItem: the lookup pass and the relocation\<close>

lemma reduce_same_key:
  "dropMenu (moveMenuItem_reduce k k list idx acc) = dropMenu acc"
  by (induction list arbitrary: idx acc) auto

lemma reduce_append:
  "moveMenuItem_reduce dk pk (xs @ ys) idx acc =
     moveMenuItem_reduce dk pk ys (idx + length xs) (moveMenuItem_reduce dk pk xs idx acc)"
  by (induction xs arbitrary: idx acc) simp_all

lemma reduce_no_drag:
  "\<forall>x\<in>set xs. id_m x \<noteq> dk \<Longrightarrow>
     dragMenu (moveMenuItem_reduce dk pk xs idx acc) = dragMenu acc \<and>
     dragMenuIdx (moveMenuItem_reduce dk pk xs idx acc) = dragMenuIdx acc"
  by (induction xs arbitrary: idx acc) simp_all

lemma reduce_no_drop:
  "\<forall>x\<in>set xs. id_m x \<noteq> pk \<or> id_m x = dk \<Longrightarrow>
     dropMenu (moveMenuItem_reduce dk pk xs idx acc) = dropMenu acc \<and>
     dropMenuIdx (moveMenuItem_reduce dk pk xs idx acc) = dropMenuIdx acc"
  by (induction xs arbitrary: idx acc) auto

lemma reduce_drag_last:
  assumes "id_m d = dk" and "\<forall>x\<in>set B. id_m x \<noteq> dk"
  shows "dragMenu (moveMenuItem_reduce dk pk (A @ d # B) idx acc) = Some d \<and>
         dragMenuIdx (moveMenuItem_reduce dk pk (A @ d # B) idx acc) = Some (idx + length A)"
  using assms by (simp add: reduce_append reduce_no_drag)

lemma reduce_drop_last:
  assumes "id_m t = pk" and "pk \<noteq> dk" and "\<forall>x\<in>set B. id_m x \<noteq> pk"
  shows "dropMenu (moveMenuItem_reduce dk pk (A @ t # B) idx acc) = Some t \<and>
         dropMenuIdx (moveMenuItem_reduce dk pk (A @ t # B) idx acc) = Some (idx + length A)"
  using assms by (simp add: reduce_append reduce_no_drop)


lemma moveArrayItem_forward:
  assumes "i < j" and "j < length xs"
  shows "moveArrayItem xs i (j + 1) =
           take i xs @ drop (Suc i) (take (Suc j) xs) @ [xs ! i] @ drop (Suc j) xs"
proof -
  have "take (j - i) (drop (Suc i) xs) = drop (Suc i) (take (Suc j) xs)"
    using assms by (simp add: drop_take)
  then show ?thesis
    using assms by (simp add: moveArrayItem_def Let_def min_def)
qed

lemma moveArrayItem_backward:
  assumes "j < i" and "i < length xs"
  shows "moveArrayItem xs i (j + 1) =
           take (Suc j) xs @ [xs ! i] @ drop (Suc j) (take i xs) @ drop (Suc i) xs"
  using assms
  by (simp add: moveArrayItem_def Let_def min_def drop_take)


lemma split_two:
  assumes "i < j" and "j < length xs"
  shows "xs = take i xs @ [xs ! i] @ drop (Suc i) (take j xs) @ [xs ! j] @ drop (Suc j) xs"
proof -
  have "xs = take j xs @ [xs ! j] @ drop (Suc j) xs"
    using assms by (simp add: id_take_nth_drop)
  moreover have "take j xs = take i xs @ [xs ! i] @ drop (Suc i) (take j xs)"
    using assms id_take_nth_drop [of i "take j xs"] by simp
  ultimately show ?thesis by (metis append.assoc)
qed

lemma moveMenuItem_list_found:
  assumes "dk \<noteq> pk" and "dk \<in> id_m ` set list" and "pk \<in> id_m ` set list"
  shows "\<exists>i j. i < length list \<and> j < length list \<and> i \<noteq> j \<and>
           id_m (list ! i) = dk \<and> id_m (list ! j) = pk \<and>
           moveMenuItem_list isF dk pk Bottom list =
             moveArrayItem (list[i := (list ! i)\<lparr>parentId := parentId (list ! j)\<rparr>]) i (j + 1)"
proof -
  let ?init = "\<lparr>dragMenu = None, dropMenu = None, dragMenuIdx = None, dropMenuIdx = None\<rparr>"
  let ?acc = "moveMenuItem_reduce dk pk list 0 ?init"
  from assms(2) have "\<exists>x\<in>set list. id_m x = dk" by auto
  then obtain A d B where drag: "list = A @ d # B" "id_m d = dk" "\<forall>z\<in>set B. id_m z \<noteq> dk"
    using split_list_last_prop [of list "\<lambda>x. id_m x = dk"] by blast
  from assms(3) have "\<exists>x\<in>set list. id_m x = pk" by auto
  then obtain A' t B' where drop: "list = A' @ t # B'" "id_m t = pk" "\<forall>z\<in>set B'. id_m z \<noteq> pk"
    using split_list_last_prop [of list "\<lambda>x. id_m x = pk"] by blast
  have acc_drag: "dragMenu ?acc = Some d" "dragMenuIdx ?acc = Some (length A)"
    using reduce_drag_last [OF drag(2,3), of pk A 0 ?init] drag(1) by simp_all
  have acc_drop: "dropMenu ?acc = Some t" "dropMenuIdx ?acc = Some (length A')"
    using reduce_drop_last [OF drop(2) _ drop(3), of dk A' 0 ?init] drop(1) assms(1) by simp_all
  have nth_d: "list ! length A = d" using drag(1) by simp
  have nth_t: "list ! length A' = t" using drop(1) by simp
  have lt: "length A < length list" "length A' < length list"
    using drag(1) drop(1) by (metis length_append length_Cons less_add_Suc1 add_Suc_right)+
  have ne: "length A \<noteq> length A'"
    using nth_d nth_t drag(2) drop(2) assms(1) by auto
  have same: "parentId d = parentId t \<Longrightarrow> list[length A := d\<lparr>parentId := parentId t\<rparr>] = list"
    using nth_d by (metis list_update_id ApiMenuData.surjective ApiMenuData.update_convs(2))
  have "moveMenuItem_list isF dk pk Bottom list =
          moveArrayItem (list[length A := (list ! length A)\<lparr>parentId := parentId (list ! length A')\<rparr>])
            (length A) (length A' + 1)"
    using same by (simp add: moveMenuItem_list_def Let_def acc_drag acc_drop nth_d nth_t)
  then show ?thesis
    using lt ne nth_d nth_t drag(2) drop(2) by blast
qed

text \<open>
  C10: with \<open>dragKey\<close> equal to \<open>dropKey\<close> the catalog is returned as it is, whatever
  the drop position: the \<open>else if\<close> of line 177 looks for the drop target only among the
  entries that are not the dragged one, so the pass finds no drop target (and in general
  finds only one whose id differs from \<open>dragKey\<close>).
\<close>

theorem moveMenuItem_same_key:
  "moveMenuItem_list isF k k pos list = list \<and>
   dropMenu (moveMenuItem_reduce k k list 0
     \<lparr>dragMenu = None, dropMenu = None, dragMenuIdx = None, dropMenuIdx = None\<rparr>) = None \<and>
   menuRawList (moveMenuItem isF k k pos s) =
     Some (case menuRawList s of None \<Rightarrow> [] | Some l \<Rightarrow> l)"
  by (simp add: moveMenuItem_def moveMenuItem_list_def Let_def reduce_same_key
      split: option.splits)

text \<open>
  C1: when the catalog holds an entry with id \<open>dragKey\<close> and another with id \<open>dropKey\<close>, a
  drop below the target (\<open>dropPosition = 1\<close>) gives the dragged entry the target's
  \<open>parentId\<close> (which leaves it as it is when the two already agree) and moves it to the
  place right after the target, the other entries keeping their order: the dragged
  entry is taken out and put back at the target's index plus one, counted in the list
  before the removal.  The siblings \<open>a\<close>, \<open>b\<close>, \<open>c\<close> with \<open>a\<close> dropped below \<open>c\<close> end in
  the order \<open>b\<close>, \<open>c\<close>, \<open>a\<close>.  The list so obtained is the new catalog of the
  state, and the recycle bin is not touched.
\<close>

theorem moveMenuItem_after:
  assumes "dragKey \<noteq> dropKey"
    and "dragKey \<in> id_m ` set list" and "dropKey \<in> id_m ` set list"
  shows "(\<exists>d t A B C. id_m d = dragKey \<and> id_m t = dropKey \<and>
           (list = A @ [d] @ B @ [t] @ C \<and>
            moveMenuItem_list isF dragKey dropKey Bottom list =
              A @ B @ [t, d\<lparr>parentId := parentId t\<rparr>] @ C
            \<or>
            list = A @ [t] @ B @ [d] @ C \<and>
            moveMenuItem_list isF dragKey dropKey Bottom list =
              A @ [t, d\<lparr>parentId := parentId t\<rparr>] @ B @ C))
         \<and> map id_m (moveMenuItem_list isF ''a'' ''c'' Bottom
              [\<lparr>id_m = ''a'', parentId = None, name = na, type_m = ka, data = pa\<rparr>,
               \<lparr>id_m = ''b'', parentId = None, name = nb, type_m = kb, data = pb\<rparr>,
               \<lparr>id_m = ''c'', parentId = None, name = nc, type_m = kc, data = pc\<rparr>])
             = [''b'', ''c'', ''a'']
         \<and> moveMenuItem isF dragKey dropKey Bottom
              \<lparr>menuRawList = Some list, recyleRawData = rd\<rparr> =
             \<lparr>menuRawList = Some (moveMenuItem_list isF dragKey dropKey Bottom list),
              recyleRawData = rd\<rparr>"
proof (intro conjI)
  obtain i j where ij: "i < length list" "j < length list" "i \<noteq> j"
      "id_m (list ! i) = dragKey" "id_m (list ! j) = dropKey"
      "moveMenuItem_list isF dragKey dropKey Bottom list =
         moveArrayItem (list[i := (list ! i)\<lparr>parentId := parentId (list ! j)\<rparr>]) i (j + 1)"
    using moveMenuItem_list_found [OF assms] by blast
  let ?d = "list ! i" and ?t = "list ! j"
  let ?d' = "?d\<lparr>parentId := parentId ?t\<rparr>"
  let ?xs = "list[i := ?d']"
  show "\<exists>d t A B C. id_m d = dragKey \<and> id_m t = dropKey \<and>
           (list = A @ [d] @ B @ [t] @ C \<and>
            moveMenuItem_list isF dragKey dropKey Bottom list =
              A @ B @ [t, d\<lparr>parentId := parentId t\<rparr>] @ C
            \<or>
            list = A @ [t] @ B @ [d] @ C \<and>
            moveMenuItem_list isF dragKey dropKey Bottom list =
              A @ [t, d\<lparr>parentId := parentId t\<rparr>] @ B @ C)"
  proof (cases "i < j")
    case True
    have "moveArrayItem ?xs i (j + 1) =
            take i ?xs @ drop (Suc i) (take (Suc j) ?xs) @ [?xs ! i] @ drop (Suc j) ?xs"
      using True ij(2) by (intro moveArrayItem_forward) simp_all
    also have "\<dots> = take i list @ drop (Suc i) (take j list) @ [?t, ?d'] @ drop (Suc j) list"
      using True ij(1,2) by (simp add: take_Suc_conv_app_nth take_update_swap list_update_beyond)
    finally have res: "moveMenuItem_list isF dragKey dropKey Bottom list =
        take i list @ drop (Suc i) (take j list) @ [?t, ?d'] @ drop (Suc j) list"
      using ij(6) by simp
    have "list = take i list @ [?d] @ drop (Suc i) (take j list) @ [?t] @ drop (Suc j) list"
      using split_two [OF True ij(2)] .
    with res ij(4,5) show ?thesis by blast
  next
    case False
    then have lt: "j < i" using ij(3) by simp
    have "moveArrayItem ?xs i (j + 1) =
            take (Suc j) ?xs @ [?xs ! i] @ drop (Suc j) (take i ?xs) @ drop (Suc i) ?xs"
      using lt ij(1) by (intro moveArrayItem_backward) simp_all
    also have "\<dots> = take j list @ [?t, ?d'] @ drop (Suc j) (take i list) @ drop (Suc i) list"
      using lt ij(1,2) by (simp add: take_Suc_conv_app_nth)
    finally have res: "moveMenuItem_list isF dragKey dropKey Bottom list =
        take j list @ [?t, ?d'] @ drop (Suc j) (take i list) @ drop (Suc i) list"
      using ij(6) by simp
    have "list = take j list @ [?t] @ drop (Suc j) (take i list) @ [?d] @ drop (Suc i) list"
      using split_two [OF lt ij(1)] .
    with res ij(4,5) show ?thesis by blast
  qed
next
  show "map id_m (moveMenuItem_list isF ''a'' ''c'' Bottom
              [\<lparr>id_m = ''a'', parentId = None, name = na, type_m = ka, data = pa\<rparr>,
               \<lparr>id_m = ''b'', parentId = None, name = nb, type_m = kb, data = pb\<rparr>,
               \<lparr>id_m = ''c'', parentId = None, name = nc, type_m = kc, data = pc\<rparr>])
             = [''b'', ''c'', ''a'']"
    by (simp add: moveMenuItem_list_def moveArrayItem_def Let_def)
next
  show "moveMenuItem isF dragKey dropKey Bottom
              \<lparr>menuRawList = Some list, recyleRawData = rd\<rparr> =
             \<lparr>menuRawList = Some (moveMenuItem_list isF dragKey dropKey Bottom list),
              recyleRawData = rd\<rparr>"
    by (simp add: moveMenuItem_def)
qed

theorem moveMenuItem_after_witness:
  "''c'' \<noteq> ''a'' \<and> ''c'' \<in> id_m ` set siblings \<and> ''a'' \<in> id_m ` set siblings \<and>
   (\<exists>d t A B C. id_m d = ''c'' \<and> id_m t = ''a'' \<and>
      (siblings = A @ [d] @ B @ [t] @ C \<and>
       moveMenuItem_list isMenuFolder ''c'' ''a'' Bottom siblings =
         A @ B @ [t, d\<lparr>parentId := parentId t\<rparr>] @ C
       \<or>
       siblings = A @ [t] @ B @ [d] @ C \<and>
       moveMenuItem_list isMenuFolder ''c'' ''a'' Bottom siblings =
         A @ [t, d\<lparr>parentId := parentId t\<rparr>] @ B @ C))"
proof -
  have h1: "''c'' \<noteq> ''a''" by simp
  have h2: "''c'' \<in> id_m ` set siblings" by (simp add: siblings_def entry_def)
  have h3: "''a'' \<in> id_m ` set siblings" by (simp add: siblings_def entry_def)
  have c: "\<exists>d t A B C. id_m d = ''c'' \<and> id_m t = ''a'' \<and>
      (siblings = A @ [d] @ B @ [t] @ C \<and>
       moveMenuItem_list isMenuFolder ''c'' ''a'' Bottom siblings =
         A @ B @ [t, d\<lparr>parentId := parentId t\<rparr>] @ C
       \<or>
       siblings = A @ [t] @ B @ [d] @ C \<and>
       moveMenuItem_list isMenuFolder ''c'' ''a'' Bottom siblings =
         A @ [t, d\<lparr>parentId := parentId t\<rparr>] @ B @ C)"
    by (rule conjunct1 [OF moveMenuItem_after [OF h1 h2 h3, where isF = isMenuFolder]])
  show ?thesis by (intro conjI h1 h2 h3 c)
qed

section \<open>removeMenuItem: the catalog\<close>

lemma findIndex_ge: "- 1 \<le> findIndex P xs"
  by (induction xs) (auto simp: Let_def)

lemma findIndex_ne: "findIndex P xs \<noteq> - 1 \<longleftrightarrow> (\<exists>x\<in>set xs. P x)"
proof (induction xs)
  case Nil
  show ?case by simp
next
  case (Cons x xs)
  have "findIndex P xs + 1 \<noteq> - 1" using findIndex_ge [of P xs] by arith
  with Cons show ?case by (auto simp: Let_def)
qed

lemma removeMenuItem_filter_kept:
  "fst (removeMenuItem_filter g cr nanoid i list n d) =
     filter (\<lambda>item. \<not> (id_m item = i \<or> parentId item = Some i)) list"
proof (induction list arbitrary: n d)
  case Nil
  show ?case by simp
next
  case (Cons item rest)
  show ?case
  proof (cases "id_m item = i \<or> parentId item = Some i")
    case True
    then show ?thesis
      using Cons.IH by (simp add: case_prod_beta)
  next
    case False
    then show ?thesis
      using Cons.IH [of n d] by (simp add: case_prod_beta)
  qed
qed

lemma removeMenuItem_catalog:
  "menuRawList (removeMenuItem g cr nanoid i s) =
     map_option (filter (\<lambda>item. \<not> (id_m item = i \<or> parentId item = Some i))) (menuRawList s)"
proof (cases "menuRawList s")
  case None
  then show ?thesis by (simp add: removeMenuItem_def)
next
  case (Some l)
  obtain kept n d where r: "removeMenuItem_filter g cr nanoid i l 0 (recyleRawData s) = (kept, n, d)"
    by (metis prod_cases3)
  with removeMenuItem_filter_kept [of g cr nanoid i l 0 "recyleRawData s"]
  have "kept = filter (\<lambda>item. \<not> (id_m item = i \<or> parentId item = Some i)) l" by simp
  with Some r show ?thesis by (simp add: removeMenuItem_def)
qed

text \<open>
  C4: \<open>removeMenuItem\<close> keeps, in their order, exactly the entries whose \<open>id\<close> and
  \<open>parentId\<close> both differ from the argument: the entry itself and its direct children
  go, an entry further down (whose parent is a removed child) stays, and afterwards no
  entry of the catalog has the argument as \<open>id\<close> or as \<open>parentId\<close>.
\<close>

theorem removeMenuItem_cascade:
  assumes "menuRawList s = Some list"
  shows "\<exists>kept. menuRawList (removeMenuItem g cr nanoid i s) = Some kept \<and>
     kept = filter (\<lambda>item. id_m item \<noteq> i \<and> parentId item \<noteq> Some i) list \<and>
     (\<forall>e\<in>set kept. id_m e \<noteq> i \<and> parentId e \<noteq> Some i) \<and>
     (\<forall>e\<in>set list. id_m e \<noteq> i \<and> parentId e \<noteq> Some i \<longrightarrow> e \<in> set kept) \<and>
     (\<forall>e\<in>set list. id_m e = i \<or> parentId e = Some i \<longrightarrow> e \<notin> set kept)"
  using assms by (simp add: removeMenuItem_catalog)

theorem removeMenuItem_cascade_witness:
  "menuRawList \<lparr>menuRawList = Some nested, recyleRawData = Some emptyRecycle\<rparr> = Some nested \<and>
   (\<exists>kept. menuRawList (removeMenuItem getCatalogType ''me'' (\<lambda>n. ''r'') ''1''
              \<lparr>menuRawList = Some nested, recyleRawData = Some emptyRecycle\<rparr>) = Some kept \<and>
     kept = filter (\<lambda>item. id_m item \<noteq> ''1'' \<and> parentId item \<noteq> Some ''1'') nested \<and>
     (\<forall>e\<in>set kept. id_m e \<noteq> ''1'' \<and> parentId e \<noteq> Some ''1'') \<and>
     (\<forall>e\<in>set nested. id_m e \<noteq> ''1'' \<and> parentId e \<noteq> Some ''1'' \<longrightarrow> e \<in> set kept) \<and>
     (\<forall>e\<in>set nested. id_m e = ''1'' \<or> parentId e = Some ''1'' \<longrightarrow> e \<notin> set kept)) \<and>
   filter (\<lambda>item. id_m item \<noteq> ''1'' \<and> parentId item \<noteq> Some ''1'') nested =
     [entry ''3'' (Some ''2'') HttpEntry]"
proof -
  let ?s = "\<lparr>menuRawList = Some nested, recyleRawData = Some emptyRecycle\<rparr>"
  have h: "menuRawList ?s = Some nested" by simp
  have e: "filter (\<lambda>item. id_m item \<noteq> ''1'' \<and> parentId item \<noteq> Some ''1'') nested =
     [entry ''3'' (Some ''2'') HttpEntry]"
    by (simp add: nested_def entry_def)
  show ?thesis
    by (intro conjI h e removeMenuItem_cascade [OF h])
qed

section \<open>moveMenuItem: the drops that change nothing\<close>

lemma reduce_drop_mem:
  "dropMenu (moveMenuItem_reduce dk pk xs idx acc) = Some m \<Longrightarrow>
     dropMenu acc = Some m \<or> (m \<in> set xs \<and> id_m m = pk)"
proof (induction xs arbitrary: idx acc)
  case Nil
  then show ?case by simp
next
  case (Cons a xs)
  let ?acc' = "if id_m a = dk then acc\<lparr>dragMenu := Some a, dragMenuIdx := Some idx\<rparr>
               else if id_m a = pk then acc\<lparr>dropMenu := Some a, dropMenuIdx := Some idx\<rparr>
               else acc"
  from Cons.prems have "dropMenu (moveMenuItem_reduce dk pk xs (Suc idx) ?acc') = Some m"
    by simp
  from Cons.IH [OF this] have "dropMenu ?acc' = Some m \<or> (m \<in> set xs \<and> id_m m = pk)" .
  then show ?case by (auto split: if_splits)
qed

lemma moveMenuItem_list_noop:
  assumes "dragKey \<notin> id_m ` set list \<or> dropKey \<notin> id_m ` set list \<or>
           (dropPosition = Inside \<and> (\<forall>e\<in>set list. id_m e = dropKey \<longrightarrow> \<not> isF (type_m e))) \<or>
           dropPosition = Top"
  shows "moveMenuItem_list isF dragKey dropKey dropPosition list = list"
proof -
  let ?init = "\<lparr>dragMenu = None, dropMenu = None, dragMenuIdx = None, dropMenuIdx = None\<rparr>"
  let ?acc = "moveMenuItem_reduce dragKey dropKey list 0 ?init"
  consider (nodrag) "dragKey \<notin> id_m ` set list" | (nodrop) "dropKey \<notin> id_m ` set list"
    | (leaf) "dropPosition = Inside" "\<forall>e\<in>set list. id_m e = dropKey \<longrightarrow> \<not> isF (type_m e)"
    | (top) "dropPosition = Top"
    using assms by blast
  then show ?thesis
  proof cases
    case nodrag
    then have "\<forall>x\<in>set list. id_m x \<noteq> dragKey" by auto
    then have "dragMenu ?acc = None"
      using reduce_no_drag [of list dragKey dropKey 0 ?init] by simp
    then show ?thesis by (simp add: moveMenuItem_list_def Let_def)
  next
    case nodrop
    then have "\<forall>x\<in>set list. id_m x \<noteq> dropKey \<or> id_m x = dragKey" by auto
    then have "dropMenu ?acc = None"
      using reduce_no_drop [of list dropKey dragKey 0 ?init] by simp
    then show ?thesis by (simp add: moveMenuItem_list_def Let_def split: option.splits)
  next
    case leaf
    have "\<not> isF (type_m m)" if "dropMenu ?acc = Some m" for m
      using reduce_drop_mem [OF that] leaf(2) by auto
    then show ?thesis
      using leaf(1) by (auto simp: moveMenuItem_list_def Let_def split: option.splits)
  next
    case top
    then show ?thesis by (simp add: moveMenuItem_list_def Let_def split: option.splits)
  qed
qed

text \<open>
  C9: on a loaded catalog \<open>moveMenuItem\<close> returns the state as it was when no entry has
  the id \<open>dragKey\<close>, when none has the id \<open>dropKey\<close>, when the drop is onto a target
  (\<open>dropPosition = 0\<close>) that is not a folder, and when the drop is above the target
  (\<open>dropPosition = -1\<close>).  The function has no failing branch on these paths.
\<close>

theorem moveMenuItem_noop:
  assumes "menuRawList s = Some list"
    and "dragKey \<notin> id_m ` set list \<or> dropKey \<notin> id_m ` set list \<or>
         (dropPosition = Inside \<and> (\<forall>e\<in>set list. id_m e = dropKey \<longrightarrow> \<not> isF (type_m e))) \<or>
         dropPosition = Top"
  shows "moveMenuItem isF dragKey dropKey dropPosition s = s \<and>
         moveMenuItem_list isF dragKey dropKey dropPosition list = list"
  using assms(1) moveMenuItem_list_noop [OF assms(2)]
  by (simp add: moveMenuItem_def)

theorem moveMenuItem_noop_witness:
  "menuRawList \<lparr>menuRawList = Some siblings, recyleRawData = Some emptyRecycle\<rparr> = Some siblings \<and>
   map (\<lambda>e. isMenuFolder (type_m e)) (filter (\<lambda>e. id_m e = ''b'') siblings) = [False] \<and>
   moveMenuItem isMenuFolder ''a'' ''b'' Inside
     \<lparr>menuRawList = Some siblings, recyleRawData = Some emptyRecycle\<rparr> =
     \<lparr>menuRawList = Some siblings, recyleRawData = Some emptyRecycle\<rparr> \<and>
   moveMenuItem_list isMenuFolder ''a'' ''b'' Inside siblings = siblings"
proof -
  let ?s = "\<lparr>menuRawList = Some siblings, recyleRawData = Some emptyRecycle\<rparr>"
  have h1: "menuRawList ?s = Some siblings" by simp
  have h2: "''a'' \<notin> id_m ` set siblings \<or> ''b'' \<notin> id_m ` set siblings \<or>
    (Inside = Inside \<and> (\<forall>e\<in>set siblings. id_m e = ''b'' \<longrightarrow> \<not> isMenuFolder (type_m e))) \<or>
    Inside = Top"
    by (simp add: siblings_def entry_def)
  have h3: "map (\<lambda>e. isMenuFolder (type_m e)) (filter (\<lambda>e. id_m e = ''b'') siblings) = [False]"
    by (simp add: siblings_def entry_def)
  show ?thesis
    by (intro conjI h1 h3 moveMenuItem_noop [OF h1 h2, THEN conjunct1]
        moveMenuItem_noop [OF h1 h2, THEN conjunct2])
qed

section \<open>updateMenuItem\<close>

lemma mergeMenuItem_fields:
  "id_m (mergeMenuItem item rest) = id_m item \<and>
   parentId (mergeMenuItem item rest) =
     (case p_parentId rest of None \<Rightarrow> parentId item | Some p \<Rightarrow> p) \<and>
   name (mergeMenuItem item rest) = (case p_name rest of None \<Rightarrow> name item | Some n \<Rightarrow> n) \<and>
   type_m (mergeMenuItem item rest) = (case p_type rest of None \<Rightarrow> type_m item | Some t \<Rightarrow> t)"
  by (simp add: mergeMenuItem_def)

lemma mergeMenuItem_data:
  "\<exists>m. data (mergeMenuItem item rest) = Some m \<and>
     (\<forall>k. k \<noteq> ''name'' \<longrightarrow>
        m k = (case (case p_data rest of None \<Rightarrow> None | Some pm \<Rightarrow> pm k) of
                 Some v \<Rightarrow> Some v
               | None \<Rightarrow> (case data item of None \<Rightarrow> None | Some dm \<Rightarrow> dm k))) \<and>
     (p_name rest = None \<longrightarrow> m ''name'' = Some (JStr (name item))) \<and>
     (\<forall>n. p_name rest = Some n \<longrightarrow>
        m ''name'' = Some (JStr (if n = [] then name item else n)))"
  by (auto simp: mergeMenuItem_def spread_def map_add_def split: option.splits)

text \<open>
  C6: \<open>updateMenuItem\<close> maps the catalog entry by entry.  An entry with another id is
  left as it is, so a catalog without the id is unchanged.  An entry with the id keeps
  its id; each of \<open>parentId\<close>, \<open>name\<close> and \<open>type\<close> is the one of the update when the
  update has it and the entry's own otherwise.  Its payload is an object that holds, for
  every key but \<open>name\<close>, the value that the update's \<open>data\<close> has for the key, and where
  the update has no \<open>data\<close> or its \<open>data\<close> has no such key, whatever the entry's own
  \<open>data\<close> had for it (nothing when the entry had no \<open>data\<close>); under \<open>name\<close> it holds
  the new name, or the entry's old name when the update has none (or an empty one).
\<close>

theorem updateMenuItem_merge:
  assumes "menuRawList s = Some list"
  shows "\<exists>list'. menuRawList (updateMenuItem i rest s) = Some list' \<and>
     recyleRawData (updateMenuItem i rest s) = recyleRawData s \<and>
     length list' = length list \<and>
     (\<forall>j<length list. id_m (list ! j) \<noteq> i \<longrightarrow> list' ! j = list ! j) \<and>
     (\<forall>j<length list. id_m (list ! j) = i \<longrightarrow>
        id_m (list' ! j) = i \<and>
        parentId (list' ! j) =
          (case p_parentId rest of None \<Rightarrow> parentId (list ! j) | Some p \<Rightarrow> p) \<and>
        name (list' ! j) = (case p_name rest of None \<Rightarrow> name (list ! j) | Some n \<Rightarrow> n) \<and>
        type_m (list' ! j) = (case p_type rest of None \<Rightarrow> type_m (list ! j) | Some t \<Rightarrow> t) \<and>
        (\<exists>m. data (list' ! j) = Some m \<and>
           (\<forall>k. k \<noteq> ''name'' \<longrightarrow>
              m k = (case (case p_data rest of None \<Rightarrow> None | Some pm \<Rightarrow> pm k) of
                       Some v \<Rightarrow> Some v
                     | None \<Rightarrow> (case data (list ! j) of None \<Rightarrow> None | Some dm \<Rightarrow> dm k))) \<and>
           (p_name rest = None \<longrightarrow> m ''name'' = Some (JStr (name (list ! j)))) \<and>
           (\<forall>n. p_name rest = Some n \<longrightarrow>
              m ''name'' = Some (JStr (if n = [] then name (list ! j) else n))))) \<and>
     ((\<forall>e\<in>set list. id_m e \<noteq> i) \<longrightarrow> list' = list)"
proof -
  let ?list' = "updateMenuItem_list i rest list"
  have a: "menuRawList (updateMenuItem i rest s) = Some ?list'"
    using assms by (simp add: updateMenuItem_def)
  have b: "recyleRawData (updateMenuItem i rest s) = recyleRawData s"
    by (simp add: updateMenuItem_def)
  have c: "length ?list' = length list"
    by (simp add: updateMenuItem_list_def)
  have d: "\<forall>j<length list. id_m (list ! j) \<noteq> i \<longrightarrow> ?list' ! j = list ! j"
    by (simp add: updateMenuItem_list_def)
  have m: "?list' ! j = mergeMenuItem (list ! j) rest" if "j < length list" "id_m (list ! j) = i" for j
    using that by (simp add: updateMenuItem_list_def)
  have e: "\<forall>j<length list. id_m (list ! j) = i \<longrightarrow>
        id_m (?list' ! j) = i \<and>
        parentId (?list' ! j) =
          (case p_parentId rest of None \<Rightarrow> parentId (list ! j) | Some p \<Rightarrow> p) \<and>
        name (?list' ! j) = (case p_name rest of None \<Rightarrow> name (list ! j) | Some n \<Rightarrow> n) \<and>
        type_m (?list' ! j) = (case p_type rest of None \<Rightarrow> type_m (list ! j) | Some t \<Rightarrow> t) \<and>
        (\<exists>m. data (?list' ! j) = Some m \<and>
           (\<forall>k. k \<noteq> ''name'' \<longrightarrow>
              m k = (case (case p_data rest of None \<Rightarrow> None | Some pm \<Rightarrow> pm k) of
                       Some v \<Rightarrow> Some v
                     | None \<Rightarrow> (case data (list ! j) of None \<Rightarrow> None | Some dm \<Rightarrow> dm k))) \<and>
           (p_name rest = None \<longrightarrow> m ''name'' = Some (JStr (name (list ! j)))) \<and>
           (\<forall>n. p_name rest = Some n \<longrightarrow>
              m ''name'' = Some (JStr (if n = [] then name (list ! j) else n))))"
  proof (intro allI impI)
    fix j assume j: "j < length list" "id_m (list ! j) = i"
    show "id_m (?list' ! j) = i \<and>
        parentId (?list' ! j) =
          (case p_parentId rest of None \<Rightarrow> parentId (list ! j) | Some p \<Rightarrow> p) \<and>
        name (?list' ! j) = (case p_name rest of None \<Rightarrow> name (list ! j) | Some n \<Rightarrow> n) \<and>
        type_m (?list' ! j) = (case p_type rest of None \<Rightarrow> type_m (list ! j) | Some t \<Rightarrow> t) \<and>
        (\<exists>m. data (?list' ! j) = Some m \<and>
           (\<forall>k. k \<noteq> ''name'' \<longrightarrow>
              m k = (case (case p_data rest of None \<Rightarrow> None | Some pm \<Rightarrow> pm k) of
                       Some v \<Rightarrow> Some v
                     | None \<Rightarrow> (case data (list ! j) of None \<Rightarrow> None | Some dm \<Rightarrow> dm k))) \<and>
           (p_name rest = None \<longrightarrow> m ''name'' = Some (JStr (name (list ! j)))) \<and>
           (\<forall>n. p_name rest = Some n \<longrightarrow>
              m ''name'' = Some (JStr (if n = [] then name (list ! j) else n))))"
      unfolding m [OF j]
      using mergeMenuItem_fields [of "list ! j" rest] mergeMenuItem_data [of "list ! j" rest] j(2)
      by simp
  qed
  have f: "(\<forall>e\<in>set list. id_m e \<noteq> i) \<longrightarrow> ?list' = list"
    by (simp add: updateMenuItem_list_def map_idI)
  show ?thesis
    using a b c d e f by blast
qed

theorem updateMenuItem_merge_witness:
  "menuRawList \<lparr>menuRawList = Some payloadEntries, recyleRawData = Some emptyRecycle\<rparr> =
     Some payloadEntries \<and>
   (\<exists>list'. menuRawList (updateMenuItem ''a'' pathPatch
                \<lparr>menuRawList = Some payloadEntries, recyleRawData = Some emptyRecycle\<rparr>) =
              Some list' \<and>
      length list' = 2 \<and>
      list' ! 1 = payloadEntries ! 1 \<and>
      id_m (list' ! 0) = ''a'' \<and>
      name (list' ! 0) = ''A'' \<and>
      (\<exists>m. data (list' ! 0) = Some m \<and>
         m ''path'' = Some (JStr ''/x'') \<and>
         m ''method'' = Some (JStr ''GET'') \<and>
         m ''auth'' = None \<and>
         m ''name'' = Some (JStr ''A''))) \<and>
   (\<exists>list'. menuRawList (updateMenuItem ''a'' renamePatch
                \<lparr>menuRawList = Some payloadEntries, recyleRawData = Some emptyRecycle\<rparr>) =
              Some list' \<and>
      name (list' ! 0) = ''B'' \<and>
      (\<exists>m. data (list' ! 0) = Some m \<and>
         m ''path'' = Some (JStr ''/b'') \<and>
         m ''method'' = Some (JStr ''GET'') \<and>
         m ''name'' = Some (JStr ''B'')))"
proof -
  let ?s = "\<lparr>menuRawList = Some payloadEntries, recyleRawData = Some emptyRecycle\<rparr>"
  have h: "menuRawList ?s = Some payloadEntries" by simp
  have len: "length payloadEntries = 2" by (simp add: payloadEntries_def)
  have e0: "id_m (payloadEntries ! 0) = ''a''" "name (payloadEntries ! 0) = ''A''"
      "data (payloadEntries ! 0) = Some [''path'' \<mapsto> JStr ''/a'', ''method'' \<mapsto> JStr ''GET'']"
    by (simp_all add: payloadEntries_def)
  have e1: "id_m (payloadEntries ! 1) \<noteq> ''a''"
    by (simp add: payloadEntries_def entry_def)
  have pp: "p_name pathPatch = None" "p_data pathPatch = Some [''path'' \<mapsto> JStr ''/x'']"
    by (simp_all add: pathPatch_def)
  have rp: "p_name renamePatch = Some ''B''" "p_data renamePatch = Some [''path'' \<mapsto> JStr ''/b'']"
    by (simp_all add: renamePatch_def)
  obtain l1 where l1: "menuRawList (updateMenuItem ''a'' pathPatch ?s) = Some l1"
      "length l1 = length payloadEntries"
      "\<forall>j<length payloadEntries. id_m (payloadEntries ! j) \<noteq> ''a'' \<longrightarrow> l1 ! j = payloadEntries ! j"
      "\<forall>j<length payloadEntries. id_m (payloadEntries ! j) = ''a'' \<longrightarrow>
        id_m (l1 ! j) = ''a'' \<and>
        parentId (l1 ! j) =
          (case p_parentId pathPatch of None \<Rightarrow> parentId (payloadEntries ! j) | Some p \<Rightarrow> p) \<and>
        name (l1 ! j) =
          (case p_name pathPatch of None \<Rightarrow> name (payloadEntries ! j) | Some n \<Rightarrow> n) \<and>
        type_m (l1 ! j) =
          (case p_type pathPatch of None \<Rightarrow> type_m (payloadEntries ! j) | Some t \<Rightarrow> t) \<and>
        (\<exists>m. data (l1 ! j) = Some m \<and>
           (\<forall>k. k \<noteq> ''name'' \<longrightarrow>
              m k = (case (case p_data pathPatch of None \<Rightarrow> None | Some pm \<Rightarrow> pm k) of
                       Some v \<Rightarrow> Some v
                     | None \<Rightarrow> (case data (payloadEntries ! j) of
                                  None \<Rightarrow> None | Some dm \<Rightarrow> dm k))) \<and>
           (p_name pathPatch = None \<longrightarrow> m ''name'' = Some (JStr (name (payloadEntries ! j)))) \<and>
           (\<forall>n. p_name pathPatch = Some n \<longrightarrow>
              m ''name'' = Some (JStr (if n = [] then name (payloadEntries ! j) else n))))"
    using updateMenuItem_merge [OF h, of "''a''" pathPatch] by blast
  from l1(4) len e0(1) obtain m1 where m1: "id_m (l1 ! 0) = ''a''"
      "name (l1 ! 0) = (case p_name pathPatch of None \<Rightarrow> name (payloadEntries ! 0) | Some n \<Rightarrow> n)"
      "data (l1 ! 0) = Some m1"
      "\<forall>k. k \<noteq> ''name'' \<longrightarrow>
         m1 k = (case (case p_data pathPatch of None \<Rightarrow> None | Some pm \<Rightarrow> pm k) of
                   Some v \<Rightarrow> Some v
                 | None \<Rightarrow> (case data (payloadEntries ! 0) of None \<Rightarrow> None | Some dm \<Rightarrow> dm k))"
      "p_name pathPatch = None \<longrightarrow> m1 ''name'' = Some (JStr (name (payloadEntries ! 0)))"
    by force
  have a1: "m1 ''path'' = Some (JStr ''/x'')"
    using m1(4) [rule_format, of "''path''"] by (simp add: pp e0)
  have a2: "m1 ''method'' = Some (JStr ''GET'')"
    using m1(4) [rule_format, of "''method''"] by (simp add: pp e0)
  have a3: "m1 ''auth'' = None"
    using m1(4) [rule_format, of "''auth''"] by (simp add: pp e0)
  have a4: "m1 ''name'' = Some (JStr ''A'')"
    using m1(5) by (simp add: pp e0)
  have a5: "name (l1 ! 0) = ''A''"
    using m1(2) by (simp add: pp e0)
  have a6: "l1 ! 1 = payloadEntries ! 1"
    using l1(3) len e1 by simp
  have first: "\<exists>list'. menuRawList (updateMenuItem ''a'' pathPatch ?s) = Some list' \<and>
      length list' = 2 \<and>
      list' ! 1 = payloadEntries ! 1 \<and>
      id_m (list' ! 0) = ''a'' \<and>
      name (list' ! 0) = ''A'' \<and>
      (\<exists>m. data (list' ! 0) = Some m \<and>
         m ''path'' = Some (JStr ''/x'') \<and>
         m ''method'' = Some (JStr ''GET'') \<and>
         m ''auth'' = None \<and>
         m ''name'' = Some (JStr ''A''))"
    using l1(1,2) len a6 m1(1,3) a1 a2 a3 a4 a5 by auto
  obtain l2 where l2: "menuRawList (updateMenuItem ''a'' renamePatch ?s) = Some l2"
      "\<forall>j<length payloadEntries. id_m (payloadEntries ! j) = ''a'' \<longrightarrow>
        id_m (l2 ! j) = ''a'' \<and>
        parentId (l2 ! j) =
          (case p_parentId renamePatch of None \<Rightarrow> parentId (payloadEntries ! j) | Some p \<Rightarrow> p) \<and>
        name (l2 ! j) =
          (case p_name renamePatch of None \<Rightarrow> name (payloadEntries ! j) | Some n \<Rightarrow> n) \<and>
        type_m (l2 ! j) =
          (case p_type renamePatch of None \<Rightarrow> type_m (payloadEntries ! j) | Some t \<Rightarrow> t) \<and>
        (\<exists>m. data (l2 ! j) = Some m \<and>
           (\<forall>k. k \<noteq> ''name'' \<longrightarrow>
              m k = (case (case p_data renamePatch of None \<Rightarrow> None | Some pm \<Rightarrow> pm k) of
                       Some v \<Rightarrow> Some v
                     | None \<Rightarrow> (case data (payloadEntries ! j) of
                                  None \<Rightarrow> None | Some dm \<Rightarrow> dm k))) \<and>
           (p_name renamePatch = None \<longrightarrow> m ''name'' = Some (JStr (name (payloadEntries ! j)))) \<and>
           (\<forall>n. p_name renamePatch = Some n \<longrightarrow>
              m ''name'' = Some (JStr (if n = [] then name (payloadEntries ! j) else n))))"
    using updateMenuItem_merge [OF h, of "''a''" renamePatch] by blast
  from l2(2) len e0(1) obtain m2 where m2:
      "name (l2 ! 0) = (case p_name renamePatch of None \<Rightarrow> name (payloadEntries ! 0) | Some n \<Rightarrow> n)"
      "data (l2 ! 0) = Some m2"
      "\<forall>k. k \<noteq> ''name'' \<longrightarrow>
         m2 k = (case (case p_data renamePatch of None \<Rightarrow> None | Some pm \<Rightarrow> pm k) of
                   Some v \<Rightarrow> Some v
                 | None \<Rightarrow> (case data (payloadEntries ! 0) of None \<Rightarrow> None | Some dm \<Rightarrow> dm k))"
      "\<forall>n. p_name renamePatch = Some n \<longrightarrow>
         m2 ''name'' = Some (JStr (if n = [] then name (payloadEntries ! 0) else n))"
    by force
  have b1: "m2 ''path'' = Some (JStr ''/b'')"
    using m2(3) [rule_format, of "''path''"] by (simp add: rp e0)
  have b2: "m2 ''method'' = Some (JStr ''GET'')"
    using m2(3) [rule_format, of "''method''"] by (simp add: rp e0)
  have b3: "m2 ''name'' = Some (JStr ''B'')"
    using m2(4) [rule_format, of "''B''"] by (simp add: rp e0)
  have b4: "name (l2 ! 0) = ''B''"
    using m2(1) by (simp add: rp)
  have second: "\<exists>list'. menuRawList (updateMenuItem ''a'' renamePatch ?s) = Some list' \<and>
      name (list' ! 0) = ''B'' \<and>
      (\<exists>m. data (list' ! 0) = Some m \<and>
         m ''path'' = Some (JStr ''/b'') \<and>
         m ''method'' = Some (JStr ''GET'') \<and>
         m ''name'' = Some (JStr ''B''))"
    using l2(1) m2(2) b1 b2 b3 b4 by auto
  show ?thesis
    by (intro conjI h first second)
qed

section \<open>restoreMenuItem\<close>

lemma restoreItem_Some:
  "restoreItem snap (Some list) =
     (if \<exists>e\<in>set list. id_m e = id_m snap then Some list else Some (list @ [snap]))"
  by (simp add: restoreItem_def Let_def findIndex_ne)

lemma restoreItem_None: "restoreItem snap None = None"
  by (simp add: restoreItem_def)

lemma restoreItem_twice: "restoreItem snap (restoreItem snap raw) = restoreItem snap raw"
  by (cases raw) (auto simp: restoreItem_Some restoreItem_None)

lemma restoreMenuItem_filter_eq:
  "restoreMenuItem_filter rid l raw =
     (filter (\<lambda>li. id_r li \<noteq> rid) l,
      foldl (\<lambda>raw li. restoreItem (deletedItem li) raw) raw (filter (\<lambda>li. id_r li = rid) l))"
  by (induction l arbitrary: raw) (simp_all add: Let_def)

lemma restoreMenuItem_loaded:
  assumes "recyleRawData s = Some d" and "d c = Some l"
  shows "restoreMenuItem rid c s =
     \<lparr>menuRawList = foldl (\<lambda>raw li. restoreItem (deletedItem li) raw) (menuRawList s)
                       (filter (\<lambda>li. id_r li = rid) l),
      recyleRawData = Some (d(c := Some (filter (\<lambda>li. id_r li \<noteq> rid) l)))\<rparr>"
  using assms by (simp add: restoreMenuItem_def restoreMenuItem_filter_eq)

lemma restoreMenuItem_twice:
  "restoreMenuItem rid c (restoreMenuItem rid c s) = restoreMenuItem rid c s"
proof (cases "recyleRawData s")
  case None
  then show ?thesis by (simp add: restoreMenuItem_def)
next
  case (Some d)
  show ?thesis
  proof (cases "d c")
    case None
    with Some show ?thesis by (simp add: restoreMenuItem_def)
  next
    case (Some l)
    let ?s1 = "restoreMenuItem rid c s"
    let ?d1 = "d(c := Some (filter (\<lambda>li. id_r li \<noteq> rid) l))"
    have s1: "?s1 = \<lparr>menuRawList = foldl (\<lambda>raw li. restoreItem (deletedItem li) raw) (menuRawList s)
                       (filter (\<lambda>li. id_r li = rid) l),
      recyleRawData = Some ?d1\<rparr>"
      using restoreMenuItem_loaded [OF \<open>recyleRawData s = Some d\<close> Some] .
    have r: "recyleRawData ?s1 = Some ?d1" by (simp add: s1)
    have l1: "?d1 c = Some (filter (\<lambda>li. id_r li \<noteq> rid) l)" by simp
    have none: "filter (\<lambda>li. id_r li = rid) (filter (\<lambda>li. id_r li \<noteq> rid) l) = []"
      by (induction l) simp_all
    have "restoreMenuItem rid c ?s1 =
            \<lparr>menuRawList = menuRawList ?s1,
             recyleRawData = Some (?d1(c := Some (filter (\<lambda>li. id_r li \<noteq> rid) l)))\<rparr>"
      unfolding restoreMenuItem_loaded [OF r l1] none by simp
    also have "\<dots> = ?s1" by (simp add: s1)
    finally show ?thesis .
  qed
qed

text \<open>
  C7: the updater that puts a snapshot back appends it at the end of the catalog when no
  entry has its id, and returns the catalog as it is when one has; run twice it gives what
  one run gives.  \<open>restoreMenuItem\<close> on a loaded bin runs that updater for the records
  with the id \<open>restoreId\<close> and for no other record, and a second \<open>restoreMenuItem\<close>
  with the same arguments leaves the whole state, so the catalog, as the first left it.
\<close>

theorem restoreMenuItem_idempotent:
  "((\<exists>e\<in>set list. id_m e = id_m snap) \<longrightarrow> restoreItem snap (Some list) = Some list) \<and>
   ((\<forall>e\<in>set list. id_m e \<noteq> id_m snap) \<longrightarrow>
      restoreItem snap (Some list) = Some (list @ [snap])) \<and>
   restoreItem snap (restoreItem snap raw) = restoreItem snap raw \<and>
   (recyleRawData s = Some d \<and> d c = Some l \<longrightarrow>
      menuRawList (restoreMenuItem rid c s) =
        foldl (\<lambda>raw li. restoreItem (deletedItem li) raw) (menuRawList s)
          (filter (\<lambda>li. id_r li = rid) l)) \<and>
   restoreMenuItem rid c (restoreMenuItem rid c s) = restoreMenuItem rid c s"
proof (intro conjI impI)
  assume "\<exists>e\<in>set list. id_m e = id_m snap"
  then show "restoreItem snap (Some list) = Some list" by (simp add: restoreItem_Some)
next
  assume "\<forall>e\<in>set list. id_m e \<noteq> id_m snap"
  then show "restoreItem snap (Some list) = Some (list @ [snap])" by (simp add: restoreItem_Some)
next
  show "restoreItem snap (restoreItem snap raw) = restoreItem snap raw"
    by (rule restoreItem_twice)
next
  assume "recyleRawData s = Some d \<and> d c = Some l"
  then show "menuRawList (restoreMenuItem rid c s) =
        foldl (\<lambda>raw li. restoreItem (deletedItem li) raw) (menuRawList s)
          (filter (\<lambda>li. id_r li = rid) l)"
    by (simp add: restoreMenuItem_loaded)
next
  show "restoreMenuItem rid c (restoreMenuItem rid c s) = restoreMenuItem rid c s"
    by (rule restoreMenuItem_twice)
qed

theorem restoreMenuItem_idempotent_witness:
  "id_m newEntry = id_m oldEntry \<and>
   restoreItem oldEntry (Some [newEntry]) = Some [newEntry] \<and>
   restoreItem oldEntry (Some []) = Some [oldEntry] \<and>
   menuRawList (restoreMenuItem ''r0'' RHttp staleState) = Some [newEntry] \<and>
   menuRawList (restoreMenuItem ''r0'' RHttp (restoreMenuItem ''r0'' RHttp staleState)) =
     Some [newEntry]"
proof -
  note inst = restoreMenuItem_idempotent [of "[newEntry]" oldEntry "Some [newEntry]" staleState
      "emptyRecycle(RHttp := Some [staleRecord])" RHttp "[staleRecord]" "''r0''"]
  have ids: "id_m newEntry = id_m oldEntry" by (simp add: newEntry_def oldEntry_def)
  have a: "restoreItem oldEntry (Some [newEntry]) = Some [newEntry]"
    using inst ids by simp
  have b: "restoreItem oldEntry (Some []) = Some [oldEntry]"
    using restoreMenuItem_idempotent [of "[]" oldEntry, THEN conjunct2, THEN conjunct1] by simp
  have c: "menuRawList (restoreMenuItem ''r0'' RHttp staleState) = Some [newEntry]"
    using inst a by (simp add: staleState_def staleRecord_def)
  have d: "restoreMenuItem ''r0'' RHttp (restoreMenuItem ''r0'' RHttp staleState) =
           restoreMenuItem ''r0'' RHttp staleState"
    using inst by simp
  show ?thesis
    using ids a b c d by simp
qed

text \<open>
  C3 as stated fails: the record of the bin is taken out by \<open>restoreMenuItem\<close> while the
  live entry with the same id keeps its place, and the snapshot of the record is not in
  the catalog afterwards.
\<close>

theorem restoreMenuItem_drops_record:
  "menuRawList (restoreMenuItem ''r0'' RHttp staleState) = Some [newEntry] \<and>
   map_option (\<lambda>d. d RHttp) (recyleRawData (restoreMenuItem ''r0'' RHttp staleState)) =
     Some (Some []) \<and>
   map_option (\<lambda>d. d RHttp) (recyleRawData staleState) = Some (Some [staleRecord]) \<and>
   id_r staleRecord = ''r0'' \<and>
   deletedItem staleRecord \<noteq> newEntry"
  by (simp add: restoreMenuItem_def staleState_def staleRecord_def restoreItem_def
      newEntry_def oldEntry_def Let_def)

text \<open>
  C3, amended: on a loaded bin \<open>restoreMenuItem\<close> takes every record with the id
  \<open>restoreId\<close> out of the category's list, whether or not its snapshot goes back, and
  leaves the other categories alone.  When one record has that id, its snapshot is
  appended to a loaded catalog that has no entry with the snapshot's id; a catalog that
  has one is left as it is, and the record is gone all the same.
\<close>

theorem restoreMenuItem_record_removed:
  assumes "recyleRawData s = Some d" and "d c = Some l"
  shows "recyleRawData (restoreMenuItem rid c s) =
           Some (d(c := Some (filter (\<lambda>li. id_r li \<noteq> rid) l))) \<and>
         (\<forall>r list. filter (\<lambda>li. id_r li = rid) l = [r] \<and> menuRawList s = Some list \<longrightarrow>
            ((\<forall>e\<in>set list. id_m e \<noteq> id_m (deletedItem r)) \<longrightarrow>
               menuRawList (restoreMenuItem rid c s) = Some (list @ [deletedItem r])) \<and>
            ((\<exists>e\<in>set list. id_m e = id_m (deletedItem r)) \<longrightarrow>
               menuRawList (restoreMenuItem rid c s) = Some list))"
  by (simp add: restoreMenuItem_loaded [OF assms] restoreItem_Some)

theorem restoreMenuItem_record_removed_witness:
  "recyleRawData staleState = Some (emptyRecycle(RHttp := Some [staleRecord])) \<and>
   (emptyRecycle(RHttp := Some [staleRecord])) RHttp = Some [staleRecord] \<and>
   recyleRawData (restoreMenuItem ''r0'' RHttp staleState) =
     Some ((emptyRecycle(RHttp := Some [staleRecord]))
        (RHttp := Some (filter (\<lambda>li. id_r li \<noteq> ''r0'') [staleRecord]))) \<and>
   filter (\<lambda>li. id_r li \<noteq> ''r0'') [staleRecord] = [] \<and>
   menuRawList (restoreMenuItem ''r0'' RHttp staleState) = Some [newEntry]"
proof -
  have h1: "recyleRawData staleState = Some (emptyRecycle(RHttp := Some [staleRecord]))"
    by (simp add: staleState_def)
  have h2: "(emptyRecycle(RHttp := Some [staleRecord])) RHttp = Some [staleRecord]" by simp
  note inst = restoreMenuItem_record_removed [OF h1 h2, of "''r0''"]
  have a: "filter (\<lambda>li. id_r li \<noteq> ''r0'') [staleRecord] = []" by (simp add: staleRecord_def)
  have b: "filter (\<lambda>li. id_r li = ''r0'') [staleRecord] = [staleRecord]"
    by (simp add: staleRecord_def)
  have c: "menuRawList staleState = Some [newEntry]" by (simp add: staleState_def)
  have d: "\<exists>e\<in>set [newEntry]. id_m e = id_m (deletedItem staleRecord)"
    by (simp add: staleRecord_def newEntry_def oldEntry_def)
  have e: "menuRawList (restoreMenuItem ''r0'' RHttp staleState) = Some [newEntry]"
    using inst [THEN conjunct2, rule_format, of staleRecord "[newEntry]"] b c d by blast
  show ?thesis
    by (intro conjI h1 h2 inst [THEN conjunct1] a e)
qed

section \<open>removeMenuItem: the recycle bin\<close>

lemma recycleItem_None: "recycleItem g cr nid i item None = (False, None)"
  by (simp add: recycleItem_def)



lemma recycleItem_eligible:
  assumes "recycleKey (if g (type_m item) = Markdown then Http else g (type_m item)) = Some c"
  shows "recycleItem g cr nid i item (Some draft) =
     (case draft c of
        None \<Rightarrow> (False, Some draft)
      | Some l \<Rightarrow>
          if \<exists>it\<in>set l. id_m (deletedItem it) = i then (False, Some draft)
          else (True, Some (draft(c := Some
                  (\<lparr>id_r = nid, expiredAt = expiry_label, creator = cr, deletedItem = item\<rparr> # l)))))"
  using assms by (simp add: recycleItem_def Let_def findIndex_ne split: option.splits)






text \<open>
  C2 asks for at most one record per \<open>deletedItem.id\<close> in a category, also for the
  children removed with their parent.  The code at a reachable state:
  the folder \<open>1\<close> with its entry \<open>2\<close> is removed, both are added again (no entry of the
  catalog has their ids then), and the folder is removed again: the Http list ends with
  two records of the entry \<open>2\<close>, since the test of line 100 looks for the id of the
  folder.  Removing the entry \<open>2\<close> itself twice, with the same steps in between, leaves
  one record.
\<close>

theorem removeMenuItem_cascade_duplicates:
  "map_option (\<lambda>d. map_option (map (\<lambda>r. id_m (deletedItem r))) (d RHttp))
     (recyleRawData
        (removeMenuItem getCatalogType ''me'' (\<lambda>_. ''r2'') ''1''
           (addMenuItem (entry ''2'' (Some ''1'') HttpEntry)
              (addMenuItem (entry ''1'' None Folder)
                 (removeMenuItem getCatalogType ''me'' (\<lambda>_. ''r1'') ''1'' folderState)))))
     = Some (Some [''2'', ''2'']) \<and>
   menuRawList (removeMenuItem getCatalogType ''me'' (\<lambda>_. ''r1'') ''1'' folderState) = Some [] \<and>
   map_option (\<lambda>d. map_option (map (\<lambda>r. id_m (deletedItem r))) (d RHttp))
     (recyleRawData
        (removeMenuItem getCatalogType ''me'' (\<lambda>_. ''r2'') ''2''
           (addMenuItem (entry ''2'' (Some ''1'') HttpEntry)
              (removeMenuItem getCatalogType ''me'' (\<lambda>_. ''r1'') ''2'' folderState))))
     = Some (Some [''2''])"
  by (simp add: removeMenuItem_def addMenuItem_def folderState_def folderWithChild_def
      emptyRecycle_def entry_def recycleItem_def Let_def)

section \<open>removeMenuItem followed by restoreMenuItem\<close>

lemma removeMenuItem_filter_append:
  "removeMenuItem_filter g cr nanoid i (xs @ ys) n d =
     (case removeMenuItem_filter g cr nanoid i xs n d of
        (k1, n1, d1) \<Rightarrow>
          (case removeMenuItem_filter g cr nanoid i ys n1 d1 of
             (k2, n2, d2) \<Rightarrow> (k1 @ k2, n2, d2)))"
  by (induction xs arbitrary: n d) (simp_all add: Let_def case_prod_beta)

lemma recycleItem_fresh:
  assumes "fresh_in c i d" and "id_m item \<noteq> i"
  shows "fresh_in c i (snd (recycleItem g cr nid i item d))"
  using assms
  by (auto simp: recycleItem_def fresh_in_def Let_def list_all_iff split: option.splits)

lemma removeMenuItem_filter_fresh:
  assumes "fresh_in c i d" and "\<forall>x\<in>set xs. id_m x \<noteq> i"
  shows "fresh_in c i (snd (snd (removeMenuItem_filter g cr nanoid i xs n d)))"
  using assms
proof (induction xs arbitrary: n d)
  case Nil
  then show ?case by simp
next
  case (Cons x xs)
  show ?case
  proof (cases "parentId x = Some i")
    case True
    have "fresh_in c i (snd (recycleItem g cr (nanoid n) i x d))"
      using Cons.prems by (intro recycleItem_fresh) simp_all
    then show ?thesis
      using True Cons.IH Cons.prems(2) by (simp add: case_prod_beta)
  next
    case False
    then show ?thesis
      using Cons.IH [OF Cons.prems(1)] Cons.prems(2) by (simp add: case_prod_beta)
  qed
qed

lemma recycleItem_blocked:
  assumes "draft c = Some l" and "\<exists>it\<in>set l. id_m (deletedItem it) = i"
  shows "\<exists>draft'. snd (recycleItem g cr nid i item (Some draft)) = Some draft' \<and> draft' c = Some l"
  using assms
  by (auto simp: recycleItem_def Let_def findIndex_ne split: option.splits)

lemma removeMenuItem_filter_blocked:
  assumes "draft c = Some l" and "\<exists>it\<in>set l. id_m (deletedItem it) = i"
  shows "\<exists>draft'. snd (snd (removeMenuItem_filter g cr nanoid i xs n (Some draft))) = Some draft' \<and>
           draft' c = Some l"
  using assms(1)
proof (induction xs arbitrary: n draft)
  case Nil
  then show ?case by simp
next
  case (Cons x xs)
  show ?case
  proof (cases "id_m x = i \<or> parentId x = Some i")
    case True
    obtain draft' where d': "snd (recycleItem g cr (nanoid n) i x (Some draft)) = Some draft'"
        "draft' c = Some l"
      using recycleItem_blocked [where draft = draft and c = c, OF Cons.prems assms(2)] by blast
    show ?thesis
      using True d'(1) Cons.IH [where draft = draft', OF d'(2)] by (simp add: case_prod_beta)
  next
    case False
    then show ?thesis
      using Cons.IH [where draft = draft, OF Cons.prems] by (simp add: case_prod_beta)
  qed
qed

lemma recycleItem_captured:
  assumes "fresh_in c (id_m e) d"
    and "recycleKey (if g (type_m e) = Markdown then Http else g (type_m e)) = Some c"
  shows "\<exists>draft l. snd (recycleItem g cr nid (id_m e) e d) = Some draft \<and>
           draft c = Some (\<lparr>id_r = nid, expiredAt = expiry_label, creator = cr,
                             deletedItem = e\<rparr> # l)"
  using assms
  by (auto simp: recycleItem_def fresh_in_def Let_def findIndex_ne list_all_iff
      split: option.splits)

lemma restore_fold_keeps:
  "e \<in> set xs \<Longrightarrow>
     \<exists>ys. foldl (\<lambda>raw li. restoreItem (deletedItem li) raw) (Some xs) ls = Some ys \<and> e \<in> set ys"
proof (induction ls arbitrary: xs)
  case Nil
  then show ?case by simp
next
  case (Cons li ls)
  have "\<exists>zs. restoreItem (deletedItem li) (Some xs) = Some zs \<and> e \<in> set zs"
    using Cons.prems by (simp add: restoreItem_Some)
  then obtain zs where zs: "restoreItem (deletedItem li) (Some xs) = Some zs" "e \<in> set zs"
    by blast
  show ?case
    using Cons.IH [OF zs(2)] zs(1) by simp
qed

lemma removeMenuItem_state:
  assumes "menuRawList s = Some list"
  shows "menuRawList (removeMenuItem g cr nanoid i s) =
           Some (fst (removeMenuItem_filter g cr nanoid i list 0 (recyleRawData s))) \<and>
         recyleRawData (removeMenuItem g cr nanoid i s) =
           snd (snd (removeMenuItem_filter g cr nanoid i list 0 (recyleRawData s)))"
  using assms by (simp add: removeMenuItem_def case_prod_beta)

lemma removeMenuItem_captures:
  assumes e: "e \<in> set list"
    and uniq: "\<forall>x\<in>set list. id_m x = id_m e \<longrightarrow> x = e"
    and key: "recycleKey (if g (type_m e) = Markdown then Http else g (type_m e)) = Some c"
    and fresh: "fresh_in c (id_m e) d"
  shows "\<exists>draft r l'. snd (snd (removeMenuItem_filter g cr nanoid (id_m e) list n d)) = Some draft \<and>
           draft c = Some (r # l') \<and> deletedItem r = e"
proof -
  obtain A B where split: "list = A @ e # B" "e \<notin> set A"
    using split_list_first [OF e] by blast
  have noA: "\<forall>x\<in>set A. id_m x \<noteq> id_m e"
    using split uniq by auto
  obtain k1 n1 d1 where f1: "removeMenuItem_filter g cr nanoid (id_m e) A n d = (k1, n1, d1)"
    by (metis prod_cases3)
  have fresh1: "fresh_in c (id_m e) d1"
    using removeMenuItem_filter_fresh [OF fresh noA, of g cr nanoid n] f1 by simp
  let ?r = "\<lparr>id_r = nanoid n1, expiredAt = expiry_label, creator = cr, deletedItem = e\<rparr>"
  obtain draft2 l2 where d2: "snd (recycleItem g cr (nanoid n1) (id_m e) e d1) = Some draft2"
      "draft2 c = Some (?r # l2)"
    using recycleItem_captured [where g = g and e = e and cr = cr and nid = "nanoid n1",
        OF fresh1 key] by blast
  let ?n2 = "if fst (recycleItem g cr (nanoid n1) (id_m e) e d1) then Suc n1 else n1"
  have in_r: "\<exists>it\<in>set (?r # l2). id_m (deletedItem it) = id_m e" by simp
  obtain draft3 where d3:
      "snd (snd (removeMenuItem_filter g cr nanoid (id_m e) B ?n2 (Some draft2))) = Some draft3"
      "draft3 c = Some (?r # l2)"
    using removeMenuItem_filter_blocked [where draft = draft2 and c = c, OF d2(2) in_r,
        of g cr nanoid B ?n2] by blast
  have "snd (snd (removeMenuItem_filter g cr nanoid (id_m e) list n d)) = Some draft3"
    using split(1) f1 d2(1) d3(1)
    by (cases "fst (recycleItem g cr (nanoid n1) (id_m e) e d1)")
      (simp_all add: removeMenuItem_filter_append case_prod_beta)
  with d3(2) show ?thesis by auto
qed

text \<open>
  C8 as stated fails: the older entry \<open>2\<close> is removed and a newer entry with the id \<open>2\<close>
  is added, which gives the state \<open>staleState\<close>.  Removing the newer entry, of an
  eligible kind, leaves the bin as it was, with the record of the older entry alone;
  restoring that record gives a catalog with the older entry, and the newer one is in
  neither store.
\<close>

theorem remove_restore_stale:
  "addMenuItem newEntry (removeMenuItem getCatalogType ''me'' (\<lambda>_. ''r0'') ''2''
      \<lparr>menuRawList = Some [oldEntry], recyleRawData = Some emptyRecycle\<rparr>) = staleState \<and>
   getCatalogType (type_m newEntry) = Http \<and>
   menuRawList (removeMenuItem getCatalogType ''me'' (\<lambda>_. ''r1'') ''2'' staleState) = Some [] \<and>
   map_option (\<lambda>d. (d RHttp, d RSchema, d RRequest))
     (recyleRawData (removeMenuItem getCatalogType ''me'' (\<lambda>_. ''r1'') ''2'' staleState)) =
     Some (Some [staleRecord], Some [], Some []) \<and>
   deletedItem staleRecord = oldEntry \<and>
   menuRawList (restoreMenuItem ''r0'' RHttp
      (removeMenuItem getCatalogType ''me'' (\<lambda>_. ''r1'') ''2'' staleState)) = Some [oldEntry] \<and>
   oldEntry \<noteq> newEntry"
  by (simp add: removeMenuItem_def addMenuItem_def restoreMenuItem_def restoreItem_def
      recycleItem_def staleState_def staleRecord_def oldEntry_def newEntry_def
      emptyRecycle_def Let_def)

text \<open>
  C8, amended: take an entry of the loaded catalog whose id no other entry has, of a kind
  that has a recycle category, with the bin loaded and no record of that category
  holding an entry with the same id.  Then \<open>removeMenuItem\<close> on its id puts at the head
  of the category's list a record whose \<open>deletedItem\<close> is the entry, field for field,
  and \<open>restoreMenuItem\<close> with that record's id gives a catalog that contains the entry.
\<close>

theorem remove_restore_roundtrip:
  assumes ml: "menuRawList s = Some list"
    and rd: "recyleRawData s = Some d"
    and e: "e \<in> set list"
    and uniq: "\<forall>x\<in>set list. id_m x = id_m e \<longrightarrow> x = e"
    and key: "recycleKey (if g (type_m e) = Markdown then Http else g (type_m e)) = Some c"
    and dc: "d c = Some l"
    and fresh: "\<forall>it\<in>set l. id_m (deletedItem it) \<noteq> id_m e"
  shows "\<exists>kept d1 r l' list2.
           menuRawList (removeMenuItem g cr nanoid (id_m e) s) = Some kept \<and> e \<notin> set kept \<and>
           recyleRawData (removeMenuItem g cr nanoid (id_m e) s) = Some d1 \<and>
           d1 c = Some (r # l') \<and> deletedItem r = e \<and>
           menuRawList (restoreMenuItem (id_r r) c (removeMenuItem g cr nanoid (id_m e) s)) =
             Some list2 \<and>
           e \<in> set list2"
proof -
  let ?s1 = "removeMenuItem g cr nanoid (id_m e) s"
  have fr: "fresh_in c (id_m e) (Some d)"
    using dc fresh by (simp add: fresh_in_def list_all_iff)
  obtain d1 r l' where cap:
      "snd (snd (removeMenuItem_filter g cr nanoid (id_m e) list 0 (Some d))) = Some d1"
      "d1 c = Some (r # l')" "deletedItem r = e"
    using removeMenuItem_captures [where g = g and e = e and cr = cr and nanoid = nanoid
        and n = 0, OF e uniq key fr] by blast
  have r1: "recyleRawData ?s1 = Some d1"
    using removeMenuItem_state [OF ml, of g cr nanoid "id_m e"] rd cap(1) by simp
  let ?kept = "filter (\<lambda>item. \<not> (id_m item = id_m e \<or> parentId item = Some (id_m e))) list"
  have m1: "menuRawList ?s1 = Some ?kept"
    using ml by (simp add: removeMenuItem_catalog)
  have "restoreItem e (Some ?kept) = Some (?kept @ [e])"
    by (simp add: restoreItem_Some)
  then have "menuRawList (restoreMenuItem (id_r r) c ?s1) =
          foldl (\<lambda>raw li. restoreItem (deletedItem li) raw) (Some (?kept @ [e]))
            (filter (\<lambda>li. id_r li = id_r r) l')"
    using cap(3) m1 by (simp add: restoreMenuItem_loaded [OF r1 cap(2)])
  moreover have "\<exists>ys. foldl (\<lambda>raw li. restoreItem (deletedItem li) raw) (Some (?kept @ [e]))
            (filter (\<lambda>li. id_r li = id_r r) l') = Some ys \<and> e \<in> set ys"
    by (intro restore_fold_keeps) simp
  moreover have "e \<notin> set ?kept" by simp
  ultimately show ?thesis
    using m1 r1 cap(2,3) by auto
qed

theorem remove_restore_roundtrip_witness:
  "menuRawList \<lparr>menuRawList = Some [oldEntry], recyleRawData = Some emptyRecycle\<rparr> =
     Some [oldEntry] \<and>
   recyleRawData \<lparr>menuRawList = Some [oldEntry], recyleRawData = Some emptyRecycle\<rparr> =
     Some emptyRecycle \<and>
   oldEntry \<in> set [oldEntry] \<and>
   recycleKey (if getCatalogType (type_m oldEntry) = Markdown then Http
               else getCatalogType (type_m oldEntry)) = Some RHttp \<and>
   emptyRecycle RHttp = Some [] \<and>
   (\<exists>kept d1 r l' list2.
      menuRawList (removeMenuItem getCatalogType ''me'' (\<lambda>_. ''r0'') (id_m oldEntry)
        \<lparr>menuRawList = Some [oldEntry], recyleRawData = Some emptyRecycle\<rparr>) = Some kept \<and>
      oldEntry \<notin> set kept \<and>
      recyleRawData (removeMenuItem getCatalogType ''me'' (\<lambda>_. ''r0'') (id_m oldEntry)
        \<lparr>menuRawList = Some [oldEntry], recyleRawData = Some emptyRecycle\<rparr>) = Some d1 \<and>
      d1 RHttp = Some (r # l') \<and> deletedItem r = oldEntry \<and>
      menuRawList (restoreMenuItem (id_r r) RHttp
        (removeMenuItem getCatalogType ''me'' (\<lambda>_. ''r0'') (id_m oldEntry)
           \<lparr>menuRawList = Some [oldEntry], recyleRawData = Some emptyRecycle\<rparr>)) = Some list2 \<and>
      oldEntry \<in> set list2)"
proof -
  let ?s = "\<lparr>menuRawList = Some [oldEntry], recyleRawData = Some emptyRecycle\<rparr>"
  have h1: "menuRawList ?s = Some [oldEntry]" by simp
  have h2: "recyleRawData ?s = Some emptyRecycle" by simp
  have h3: "oldEntry \<in> set [oldEntry]" by simp
  have h4: "\<forall>x\<in>set [oldEntry]. id_m x = id_m oldEntry \<longrightarrow> x = oldEntry" by simp
  have h5: "recycleKey (if getCatalogType (type_m oldEntry) = Markdown then Http
               else getCatalogType (type_m oldEntry)) = Some RHttp"
    by (simp add: oldEntry_def)
  have h6: "emptyRecycle RHttp = Some []" by (simp add: emptyRecycle_def)
  have h7: "\<forall>it\<in>set ([] :: (EntryKind, string) RecycleDataItem list).
              id_m (deletedItem it) \<noteq> id_m oldEntry" by simp
  show ?thesis
    by (intro conjI h1 h2 h3 h5 h6
        remove_restore_roundtrip [where g = getCatalogType and e = oldEntry and c = RHttp,
          OF h1 h2 h3 h4 h5 h6 h7])
qed

end
